theory Spec2Isabelle
  imports Complex_Main "HOL-Library.AList"
begin

section \<open>Lotto draw generator: the model of app.py\<close>

subsection \<open>Configuration constants\<close>

definition MAX_COMBINATIONS :: nat where
  "MAX_COMBINATIONS = 200"

definition LOTTO_MIN :: int where
  "LOTTO_MIN = 1"

definition LOTTO_MAX :: int where
  "LOTTO_MAX = 36"

definition NUMBERS_PER_COMBINATION :: nat where
  "NUMBERS_PER_COMBINATION = 7"

subsection \<open>Python values\<close>

text \<open>
  The values that \<^verbatim>\<open>request.get_json()\<close> can hand to the handler. A float is its
  exact rational value, or one of the three special values that the JSON decoder
  accepts. A dict is the list of its items.
\<close>

datatype pyfloat = Finite rat | PosInf | NegInf | NaN

datatype pyval =
    PNone
  | PBool bool
  | PInt int
  | PFloat pyfloat
  | PStr string
  | PList "pyval list"
  | PDict "(string \<times> pyval) list"

datatype exn =
    RuntimeError string
  | ValueError
  | TypeError
  | OverflowError
  | KeyError

text \<open>
  \<^verbatim>\<open>isinstance(n, int)\<close>: the value of \<open>n\<close> as an integer when it is one.
  \<^verbatim>\<open>bool\<close> is a subclass of \<^verbatim>\<open>int\<close>, with \<^verbatim>\<open>True == 1\<close> and \<^verbatim>\<open>False == 0\<close>.
\<close>

fun isinstance_int :: "pyval \<Rightarrow> int option" where
  "isinstance_int (PInt i) = Some i"
| "isinstance_int (PBool b) = Some (if b then 1 else 0)"
| "isinstance_int _ = None"

subsection \<open>Formatting integers (f-strings)\<close>

definition digit_char :: "nat \<Rightarrow> char" where
  "digit_char d = ''0123456789'' ! d"

fun str_nat :: "nat \<Rightarrow> string" where
  "str_nat n = (if n < 10 then [digit_char n] else str_nat (n div 10) @ [digit_char (n mod 10)])"

declare str_nat.simps [simp del]

definition str_int :: "int \<Rightarrow> string" where
  "str_int i = (if i < 0 then ''-'' @ str_nat (nat (- i)) else str_nat (nat i))"

subsection \<open>validate_combination\<close>

text \<open>
  The loop of \<^verbatim>\<open>validate_combination\<close> over the numbers, with the set \<open>seen\<close> of the
  numbers met so far. The first check that fails returns.
\<close>

fun validate_loop :: "pyval list \<Rightarrow> int set \<Rightarrow> bool \<times> string" where
  "validate_loop [] seen = (True, '''')"
| "validate_loop (n # ns) seen =
     (case isinstance_int n of
        None \<Rightarrow> (False, ''All numbers must be integers.'')
      | Some v \<Rightarrow>
          if \<not> (LOTTO_MIN \<le> v \<and> v \<le> LOTTO_MAX) then
            (False, ''All numbers must be between '' @ str_int LOTTO_MIN @ '' and ''
                      @ str_int LOTTO_MAX @ ''.'')
          else if v \<in> seen then
            (False, ''Numbers within a combination must be unique.'')
          else validate_loop ns (insert v seen))"

definition validate_combination :: "pyval list \<Rightarrow> bool \<times> string" where
  "validate_combination numbers =
     (if length numbers \<noteq> NUMBERS_PER_COMBINATION then
        (False, ''Each combination must have exactly '' @ str_nat NUMBERS_PER_COMBINATION
                  @ '' numbers.'')
      else validate_loop numbers {})"

subsection \<open>generate_unique_draw\<close>

text \<open>
  \<^verbatim>\<open>random.sample(population, k)\<close> is a parameter: from the state of the generator, the
  population and \<open>k\<close> it gives the sample and the next state of the generator.
  \<open>sample_contract\<close> is what the library promises of it: \<open>k\<close> elements taken at
  distinct positions of the population.
\<close>

type_synonym 'g sampler = "'g \<Rightarrow> int list \<Rightarrow> nat \<Rightarrow> int list \<times> 'g"

definition sample_contract :: "'g sampler \<Rightarrow> bool" where
  "sample_contract sample \<longleftrightarrow>
     (\<forall>g population k. distinct population \<and> k \<le> length population \<longrightarrow>
        length (fst (sample g population k)) = k
        \<and> distinct (fst (sample g population k))
        \<and> set (fst (sample g population k)) \<subseteq> set population)"

definition max_attempts :: nat where
  "max_attempts = 10000"

text \<open>
  The \<^verbatim>\<open>for _ in range(max_attempts)\<close> loop, by the number of attempts that remain.
  Leaving the loop without a draw raises the RuntimeError.
\<close>

fun attempts :: "'g sampler \<Rightarrow> int set set \<Rightarrow> nat \<Rightarrow> 'g \<Rightarrow> (exn + int list) \<times> 'g" where
  "attempts sample submitted_sets 0 g =
     (Inl (RuntimeError ''Could not generate a non-matching draw after 10,000 attempts.''), g)"
| "attempts sample submitted_sets (Suc n) g =
     (case sample g [LOTTO_MIN..LOTTO_MAX] NUMBERS_PER_COMBINATION of
        (draw, g') \<Rightarrow>
          if set draw \<notin> submitted_sets then (Inr (sort draw), g')
          else attempts sample submitted_sets n g')"

definition generate_unique_draw ::
    "'g sampler \<Rightarrow> 'g \<Rightarrow> int set list \<Rightarrow> (exn + int list) \<times> 'g" where
  "generate_unique_draw sample g combinations =
     (let submitted_sets = set combinations
      in attempts sample submitted_sets max_attempts g)"

text \<open>The state of the generator before attempt number \<open>k\<close> (counted from 0).\<close>

fun state_before :: "'g sampler \<Rightarrow> nat \<Rightarrow> 'g \<Rightarrow> 'g" where
  "state_before sample 0 g = g"
| "state_before sample (Suc k) g =
     state_before sample k (snd (sample g [LOTTO_MIN..LOTTO_MAX] NUMBERS_PER_COMBINATION))"

definition attempt_draw :: "'g sampler \<Rightarrow> 'g \<Rightarrow> nat \<Rightarrow> int list" where
  "attempt_draw sample g k =
     fst (sample (state_before sample k g) [LOTTO_MIN..LOTTO_MAX] NUMBERS_PER_COMBINATION)"

subsection \<open>analyse_hits\<close>

record hit_detail =
  index :: nat
  combination :: "int list"
  hits :: nat
  hit_numbers :: "int list"
  miss_numbers :: "int list"

record hit_report =
  six_hits :: nat
  five_hits :: nat
  four_hits :: nat
  total_with_hits :: nat
  details :: "hit_detail list"

text \<open>\<^verbatim>\<open>d[k]\<close> on a dict given by its items: a missing key raises KeyError.\<close>

definition dict_get :: "('k \<times> 'v) list \<Rightarrow> 'k \<Rightarrow> exn + 'v" where
  "dict_get d k = (case map_of d k of None \<Rightarrow> Inl KeyError | Some v \<Rightarrow> Inr v)"

text \<open>
  \<^verbatim>\<open>xs.sort(key=f, reverse=True)\<close>: the stable sort with every comparison reversed,
  so that elements with equal keys keep their order.
\<close>

definition sort_reverse :: "('a \<Rightarrow> nat) \<Rightarrow> 'a list \<Rightarrow> 'a list" where
  "sort_reverse f xs = sort_key (\<lambda>x. - int (f x)) xs"

text \<open>
  The loop over \<^verbatim>\<open>enumerate(combinations)\<close>, with the dict \<open>summary\<close> and the list
  \<open>details\<close> as its state.
\<close>

fun analyse_loop ::
    "nat \<Rightarrow> int list list \<Rightarrow> int set \<Rightarrow> (nat \<times> nat) list \<Rightarrow> hit_detail list
      \<Rightarrow> (nat \<times> nat) list \<times> hit_detail list" where
  "analyse_loop i [] draw_set summary dets = (summary, dets)"
| "analyse_loop i (combo # rest) draw_set summary dets =
     (let h = card (set combo \<inter> draw_set);
          summary' = (if h \<in> fst ` set summary
                      then AList.map_entry h (\<lambda>v. v + 1) summary else summary);
          dets' = (if h \<ge> 4
                   then dets @ [\<lparr> index = i + 1,
                                  combination = sort combo,
                                  hits = h,
                                  hit_numbers = sorted_list_of_set (set combo \<inter> draw_set),
                                  miss_numbers = sorted_list_of_set (set combo - draw_set) \<rparr>]
                   else dets)
      in analyse_loop (i + 1) rest draw_set summary' dets')"

definition analyse_hits :: "int list list \<Rightarrow> int set \<Rightarrow> exn + hit_report" where
  "analyse_hits combinations draw_set =
     (case analyse_loop 0 combinations draw_set [(4, 0), (5, 0), (6, 0)] [] of
        (summary, dets) \<Rightarrow>
          (case dict_get summary 6 of Inl e \<Rightarrow> Inl e | Inr six \<Rightarrow>
          (case dict_get summary 5 of Inl e \<Rightarrow> Inl e | Inr five \<Rightarrow>
          (case dict_get summary 4 of Inl e \<Rightarrow> Inl e | Inr four \<Rightarrow>
             Inr \<lparr> six_hits = six,
                   five_hits = five,
                   four_hits = four,
                   total_with_hits = sum_list (map snd summary),
                   details = sort_reverse hits dets \<rparr>))))"

subsection \<open>The built-in int()\<close>

text \<open>
  \<^verbatim>\<open>int(s)\<close> on text is a parameter \<open>ti\<close> of the model: the integer that the text
  denotes, or \<open>None\<close> where \<^verbatim>\<open>int\<close> raises ValueError (on text it raises nothing
  else). Nothing is assumed of it.
\<close>

type_synonym text_int = "string \<Rightarrow> int option"

text \<open>
  \<^verbatim>\<open>int(n)\<close>: a float is truncated towards zero, NaN raises ValueError, an infinity
  raises OverflowError; text goes to \<open>ti\<close>; None, lists and dicts raise TypeError.
\<close>

fun py_int :: "text_int \<Rightarrow> pyval \<Rightarrow> exn + int" where
  "py_int ti (PInt i) = Inr i"
| "py_int ti (PBool b) = Inr (if b then 1 else 0)"
| "py_int ti (PFloat (Finite q)) = Inr (if 0 \<le> q then \<lfloor>q\<rfloor> else \<lceil>q\<rceil>)"
| "py_int ti (PFloat NaN) = Inl ValueError"
| "py_int ti (PFloat PosInf) = Inl OverflowError"
| "py_int ti (PFloat NegInf) = Inl OverflowError"
| "py_int ti (PStr s) = (case ti s of None \<Rightarrow> Inl ValueError | Some i \<Rightarrow> Inr i)"
| "py_int ti PNone = Inl TypeError"
| "py_int ti (PList xs) = Inl TypeError"
| "py_int ti (PDict kvs) = Inl TypeError"

text \<open>The comprehension \<^verbatim>\<open>[int(n) for n in combo]\<close>: the first exception leaves it.\<close>

fun int_all :: "text_int \<Rightarrow> pyval list \<Rightarrow> exn + int list" where
  "int_all ti [] = Inr []"
| "int_all ti (n # ns) =
     (case py_int ti n of
        Inl e \<Rightarrow> Inl e
      | Inr i \<Rightarrow> (case int_all ti ns of Inl e \<Rightarrow> Inl e | Inr is \<Rightarrow> Inr (i # is)))"

subsection \<open>The request handler\<close>

record draw_response =
  draw_numbers :: "int list"
  combinations_submitted :: nat
  unique_combinations :: nat
  message :: string
  hit_report :: hit_report

text \<open>
  What a request ends with: a JSON body with its HTTP status (\<^verbatim>\<open>jsonify(...)\<close> alone
  is status 200), or an exception that no handler of the function catches. The record
  field \<open>draw_numbers\<close> is the key \<^verbatim>\<open>"draw"\<close> of the body.
\<close>

datatype body = ErrorJson string | DrawJson draw_response

datatype outcome = Response body nat | Unhandled exn

text \<open>Truth value of a Python value, for \<^verbatim>\<open>not data\<close>.\<close>

fun truthy :: "pyval \<Rightarrow> bool" where
  "truthy PNone = False"
| "truthy (PBool b) = b"
| "truthy (PInt i) = (i \<noteq> 0)"
| "truthy (PFloat f) = (f \<noteq> Finite 0)"
| "truthy (PStr s) = (s \<noteq> [])"
| "truthy (PList xs) = (xs \<noteq> [])"
| "truthy (PDict kvs) = (kvs \<noteq> [])"

fun contains_sub :: "string \<Rightarrow> string \<Rightarrow> bool" where
  "contains_sub pat [] = (pat = [])"
| "contains_sub pat (c # cs) = (take (length pat) (c # cs) = pat \<or> contains_sub pat cs)"

text \<open>
  \<^verbatim>\<open>key in data\<close> for a text key: a key of a dict, an element of a list, a substring
  of a text; the other values are no containers.
\<close>

fun py_in :: "string \<Rightarrow> pyval \<Rightarrow> exn + bool" where
  "py_in key (PDict kvs) = Inr (key \<in> fst ` set kvs)"
| "py_in key (PList xs) = Inr (PStr key \<in> set xs)"
| "py_in key (PStr s) = Inr (contains_sub key s)"
| "py_in key _ = Inl TypeError"

text \<open>\<^verbatim>\<open>data[key]\<close> for a text key: only a dict can be indexed by text.\<close>

fun py_getitem :: "pyval \<Rightarrow> string \<Rightarrow> exn + pyval" where
  "py_getitem (PDict kvs) key =
     (case map_of kvs key of None \<Rightarrow> Inl KeyError | Some v \<Rightarrow> Inr v)"
| "py_getitem _ key = Inl TypeError"

text \<open>
  The loop that validates each combination, with the list \<open>validated\<close> as its state.
  It ends with the response of the first combination that fails, or with the validated
  combinations.
\<close>

fun validate_all ::
    "text_int \<Rightarrow> nat \<Rightarrow> pyval list \<Rightarrow> int list list \<Rightarrow> outcome + int list list" where
  "validate_all ti i [] validated = Inr validated"
| "validate_all ti i (combo # rest) validated =
     (case combo of
        PList ns \<Rightarrow>
          (case int_all ti ns of
             Inl e \<Rightarrow>
               if e = ValueError \<or> e = TypeError then
                 Inl (Response (ErrorJson (''Combination '' @ str_nat (i + 1)
                        @ '' contains non-integer values.'')) 400)
               else Inl (Unhandled e)
           | Inr numbers \<Rightarrow>
               (case validate_combination (map PInt numbers) of
                  (valid, msg) \<Rightarrow>
                    if \<not> valid then
                      Inl (Response (ErrorJson (''Combination '' @ str_nat (i + 1) @ '': ''
                             @ msg)) 400)
                    else validate_all ti (i + 1) rest (validated @ [numbers])))
      | _ \<Rightarrow>
          Inl (Response (ErrorJson (''Combination '' @ str_nat (i + 1)
                 @ '' is not a valid list.'')) 400))"

text \<open>
  \<^verbatim>\<open>list({frozenset(c) for c in validated})\<close>: the distinct value-sets. Python leaves
  the order of this list open; here it is the order of first occurrence. The code below
  reads only its length and the set of its elements.
\<close>

definition dedup :: "int list list \<Rightarrow> int set list" where
  "dedup validated = remdups (map set validated)"

text \<open>
  The handler from the validated combinations on: deduplication, the draw, the hit
  report and the response.
\<close>

definition respond :: "'g sampler \<Rightarrow> 'g \<Rightarrow> int list list \<Rightarrow> outcome \<times> 'g" where
  "respond sample g validated =
     (let unique = dedup validated in
      case generate_unique_draw sample g unique of
        (Inl (RuntimeError e), g') \<Rightarrow> (Response (ErrorJson e) 500, g')
      | (Inl e, g') \<Rightarrow> (Unhandled e, g')
      | (Inr result, g') \<Rightarrow>
          (let draw_set = set result in
           case analyse_hits validated draw_set of
             Inl e \<Rightarrow> (Unhandled e, g')
           | Inr report \<Rightarrow>
               (Response (DrawJson
                  \<lparr> draw_numbers = result,
                    combinations_submitted = length validated,
                    unique_combinations = length unique,
                    message = ''Draw generated! It does not match any of your ''
                              @ str_nat (length unique) @ '' unique combination(s).'',
                    hit_report = report \<rparr>) 200, g')))"

text \<open>
  The handler in two phases. \<open>check_request\<close> is the handler up to the end of the
  validation loop: it gives the response that rejects the request, or the validated
  combinations.
\<close>

definition check_request :: "text_int \<Rightarrow> pyval \<Rightarrow> outcome + int list list" where
  "check_request ti data =
     (if \<not> truthy data then Inl (Response (ErrorJson ''No combinations provided.'') 400)
      else case py_in ''combinations'' data of
        Inl e \<Rightarrow> Inl (Unhandled e)
      | Inr False \<Rightarrow> Inl (Response (ErrorJson ''No combinations provided.'') 400)
      | Inr True \<Rightarrow>
          (case py_getitem data ''combinations'' of
             Inl e \<Rightarrow> Inl (Unhandled e)
           | Inr (PList combinations) \<Rightarrow>
               if length combinations = 0 then
                 Inl (Response (ErrorJson ''Please provide at least one combination.'') 400)
               else if length combinations > MAX_COMBINATIONS then
                 Inl (Response (ErrorJson (''Maximum '' @ str_nat MAX_COMBINATIONS
                        @ '' combinations allowed.'')) 400)
               else validate_all ti 0 combinations []
           | Inr _ \<Rightarrow>
               Inl (Response (ErrorJson ''Please provide at least one combination.'') 400)))"

definition draw :: "text_int \<Rightarrow> 'g sampler \<Rightarrow> 'g \<Rightarrow> pyval \<Rightarrow> outcome \<times> 'g" where
  "draw ti sample g data =
     (case check_request ti data of
        Inl out \<Rightarrow> (out, g)
      | Inr validated \<Rightarrow> respond sample g validated)"

subsection \<open>Auxiliary definitions for the proofs\<close>

text \<open>
  A deterministic sampler for concrete runs: in state \<open>g\<close> it takes the first \<open>k\<close>
  elements of the population rotated by \<open>g\<close>, and the state advances by \<open>step\<close>.
\<close>

definition rot_sampler :: "nat \<Rightarrow> nat sampler" where
  "rot_sampler step g population k = (take k (rotate g population), g + step)"

text \<open>The number of hits of a combination, and the detail record of the loop body.\<close>

definition hit_count :: "int set \<Rightarrow> int list \<Rightarrow> nat" where
  "hit_count draw_set combo = card (set combo \<inter> draw_set)"

definition detail_of :: "nat \<Rightarrow> int list \<Rightarrow> int set \<Rightarrow> hit_detail" where
  "detail_of i combo draw_set =
     \<lparr> index = i + 1,
       combination = sort combo,
       hits = card (set combo \<inter> draw_set),
       hit_numbers = sorted_list_of_set (set combo \<inter> draw_set),
       miss_numbers = sorted_list_of_set (set combo - draw_set) \<rparr>"

text \<open>The records that the loop appends, from position \<open>i\<close> on.\<close>

fun details_from :: "nat \<Rightarrow> int list list \<Rightarrow> int set \<Rightarrow> hit_detail list" where
  "details_from i [] draw_set = []"
| "details_from i (combo # rest) draw_set =
     (if 4 \<le> hit_count draw_set combo then [detail_of i combo draw_set] else [])
       @ details_from (i + 1) rest draw_set"

text \<open>The order of the details list: more hits first, and among equal hits the smaller index.\<close>

definition before :: "hit_detail \<Rightarrow> hit_detail \<Rightarrow> bool" where
  "before a b \<longleftrightarrow> hits b < hits a \<or> (hits a = hits b \<and> index a < index b)"

text \<open>The request body whose field \<^verbatim>\<open>combinations\<close> is the given batch.\<close>

definition payload :: "pyval list \<Rightarrow> pyval" where
  "payload batch = PDict [(''combinations'', PList batch)]"

text \<open>
  A submitted combination \<open>c\<close> passes the validation loop as the integer list \<open>v\<close>:
  it is a list, \<^verbatim>\<open>int\<close> coerces every element, and \<^verbatim>\<open>validate_combination\<close> accepts
  the result.
\<close>

definition coerced :: "text_int \<Rightarrow> pyval \<Rightarrow> int list \<Rightarrow> bool" where
  "coerced ti c v \<longleftrightarrow>
     (case c of
        PList ns \<Rightarrow> int_all ti ns = Inr v \<and> validate_combination (map PInt v) = (True, '''')
      | _ \<Rightarrow> False)"

text \<open>
  For the concrete runs below: \<^verbatim>\<open>int\<close> on the two texts that occur in them. It gives
  12 on \<^verbatim>\<open>12\<close> and raises ValueError on \<^verbatim>\<open>abc\<close>; it is applied to no other text.
\<close>

definition example_int :: text_int where
  "example_int s = (if s = ''12'' then Some 12 else None)"

section \<open>Properties\<close>

subsection \<open>Formatting\<close>

lemma str_nat_7: "str_nat 7 = ''7''"
  by (simp add: str_nat.simps digit_char_def)

lemma length_msg:
  "''Each combination must have exactly '' @ str_nat NUMBERS_PER_COMBINATION @ '' numbers.''
     = ''Each combination must have exactly 7 numbers.''"
  by (simp add: NUMBERS_PER_COMBINATION_def str_nat_7)

subsection \<open>The integers of a valid combination\<close>

lemma validate_loop_ints:
  "validate_loop (map PInt C) seen = (True, '''') \<longleftrightarrow>
     (\<forall>x\<in>set C. LOTTO_MIN \<le> x \<and> x \<le> LOTTO_MAX) \<and> distinct C \<and> set C \<inter> seen = {}"
  by (induction C arbitrary: seen) auto

lemma valid_ints_iff:
  "validate_combination (map PInt C) = (True, '''') \<longleftrightarrow>
     length C = 7 \<and> (\<forall>x\<in>set C. 1 \<le> x \<and> x \<le> 36) \<and> distinct C"
  by (simp add: validate_combination_def validate_loop_ints NUMBERS_PER_COMBINATION_def
      LOTTO_MIN_def LOTTO_MAX_def)

subsection \<open>The draw generator\<close>

lemma population_ok:
  "distinct [LOTTO_MIN..LOTTO_MAX] \<and> NUMBERS_PER_COMBINATION \<le> length [LOTTO_MIN..LOTTO_MAX]"
  by (simp add: LOTTO_MIN_def LOTTO_MAX_def NUMBERS_PER_COMBINATION_def)

lemma sample_contract_draw:
  assumes "sample_contract sample"
    and "sample g [LOTTO_MIN..LOTTO_MAX] NUMBERS_PER_COMBINATION = (d, g1)"
  shows "length d = 7 \<and> distinct d \<and> set d \<subseteq> {1..36}"
proof -
  from assms(1) population_ok
  have "length (fst (sample g [LOTTO_MIN..LOTTO_MAX] NUMBERS_PER_COMBINATION))
          = NUMBERS_PER_COMBINATION
        \<and> distinct (fst (sample g [LOTTO_MIN..LOTTO_MAX] NUMBERS_PER_COMBINATION))
        \<and> set (fst (sample g [LOTTO_MIN..LOTTO_MAX] NUMBERS_PER_COMBINATION))
            \<subseteq> set [LOTTO_MIN..LOTTO_MAX]"
    unfolding sample_contract_def by blast
  with assms(2) show ?thesis
    by (simp add: LOTTO_MIN_def LOTTO_MAX_def NUMBERS_PER_COMBINATION_def)
qed

lemma attempts_Inr:
  assumes "sample_contract sample" and "attempts sample S n g = (Inr D, g')"
  shows "set D \<notin> S \<and> length D = 7 \<and> distinct D \<and> set D \<subseteq> {1..36} \<and> sorted D"
  using assms(2)
proof (induction n arbitrary: g)
  case 0
  then show ?case by simp
next
  case (Suc n)
  obtain d g1 where s: "sample g [LOTTO_MIN..LOTTO_MAX] NUMBERS_PER_COMBINATION = (d, g1)"
    by (cases "sample g [LOTTO_MIN..LOTTO_MAX] NUMBERS_PER_COMBINATION")
  note d = sample_contract_draw [OF assms(1) s]
  show ?case
  proof (cases "set d \<in> S")
    case True
    with Suc.prems s have "attempts sample S n g1 = (Inr D, g')" by simp
    then show ?thesis by (rule Suc.IH)
  next
    case False
    with Suc.prems s have "D = sort d" by simp
    with False d show ?thesis by simp
  qed
qed

lemma attempt_draw_Suc:
  "attempt_draw sample g (Suc k) =
     attempt_draw sample (snd (sample g [LOTTO_MIN..LOTTO_MAX] NUMBERS_PER_COMBINATION)) k"
  by (simp add: attempt_draw_def)

lemma attempts_Inl_iff:
  "(\<exists>e. fst (attempts sample S n g) = Inl e) \<longleftrightarrow> (\<forall>k<n. set (attempt_draw sample g k) \<in> S)"
proof (induction n arbitrary: g)
  case 0
  then show ?case by simp
next
  case (Suc n)
  obtain d g1 where s: "sample g [LOTTO_MIN..LOTTO_MAX] NUMBERS_PER_COMBINATION = (d, g1)"
    by (cases "sample g [LOTTO_MIN..LOTTO_MAX] NUMBERS_PER_COMBINATION")
  have d0: "attempt_draw sample g 0 = d"
    using s by (simp add: attempt_draw_def)
  have dS: "\<And>k. attempt_draw sample g (Suc k) = attempt_draw sample g1 k"
    using s by (simp add: attempt_draw_Suc)
  have all: "(\<forall>k<Suc n. set (attempt_draw sample g k) \<in> S) \<longleftrightarrow>
      set d \<in> S \<and> (\<forall>k<n. set (attempt_draw sample g1 k) \<in> S)"
    using d0 dS by (auto simp: less_Suc_eq_0_disj)
  show ?case
    unfolding all using s Suc.IH [of g1] by (cases "set d \<in> S") simp_all
qed

lemma attempts_Inl_msg:
  "fst (attempts sample S n g) = Inl e \<Longrightarrow>
     e = RuntimeError ''Could not generate a non-matching draw after 10,000 attempts.''"
  by (induction n arbitrary: g) (auto split: prod.splits if_splits)

lemma generate_Inl_iff:
  "fst (generate_unique_draw sample g F)
     = Inl (RuntimeError ''Could not generate a non-matching draw after 10,000 attempts.'')
   \<longleftrightarrow> (\<forall>k<10000. set (attempt_draw sample g k) \<in> set F)"
proof -
  have "(\<exists>e. fst (generate_unique_draw sample g F) = Inl e)
      \<longleftrightarrow> (\<forall>k<10000. set (attempt_draw sample g k) \<in> set F)"
    using attempts_Inl_iff [of sample "set F" max_attempts g]
    by (simp add: generate_unique_draw_def max_attempts_def)
  moreover have "\<And>e. fst (generate_unique_draw sample g F) = Inl e \<Longrightarrow>
      e = RuntimeError ''Could not generate a non-matching draw after 10,000 attempts.''"
    by (simp add: generate_unique_draw_def attempts_Inl_msg)
  ultimately show ?thesis by blast
qed

lemma generate_Inl_msg:
  "fst (generate_unique_draw sample g F) = Inl e \<Longrightarrow>
     e = RuntimeError ''Could not generate a non-matching draw after 10,000 attempts.''"
  by (simp add: generate_unique_draw_def attempts_Inl_msg)

lemma generate_Inr:
  assumes "sample_contract sample" and "generate_unique_draw sample g F = (Inr D, g')"
  shows "set D \<notin> set F \<and> length D = 7 \<and> distinct D \<and> set D \<subseteq> {1..36} \<and> sorted D"
  using attempts_Inr [OF assms(1), of "set F" max_attempts g D g'] assms(2)
  by (simp add: generate_unique_draw_def)

lemma sample_contract_rot: "sample_contract (rot_sampler step)"
  unfolding sample_contract_def rot_sampler_def
  by (auto dest: in_set_takeD)

subsection \<open>The validator\<close>

text \<open>
  C2. For every list \<open>C\<close> of integers, \<^verbatim>\<open>validate_combination(C)\<close> returns
  \<^verbatim>\<open>(True, "")\<close> if and only if \<open>C\<close> has exactly 7 elements, every element lies in
  the closed range from 1 to 36, and the elements are pairwise distinct.
\<close>

theorem validate_combination_iff:
  "validate_combination (map PInt C) = (True, '''') \<longleftrightarrow>
     length C = 7 \<and> (\<forall>x\<in>set C. 1 \<le> x \<and> x \<le> 36) \<and> distinct C"
  by (rule valid_ints_iff)

theorem validate_combination_iff_witness:
  "validate_combination (map PInt [3, 11, 36, 1, 20, 8, 15]) = (True, '''')
   \<and> length [3, 11, 36, 1, 20, 8, 15 :: int] = 7
   \<and> set [3, 11, 36, 1, 20, 8, 15 :: int] \<subseteq> {1..36}
   \<and> distinct [3, 11, 36, 1, 20, 8, 15 :: int]"
  using validate_combination_iff [of "[3, 11, 36, 1, 20, 8, 15]"] by simp

subsection \<open>The draw respects the forbidden sets\<close>

text \<open>
  C1. For every forbidden collection \<open>F\<close> and every random source that keeps the
  contract of \<^verbatim>\<open>random.sample\<close>: if \<^verbatim>\<open>generate_unique_draw\<close> returns a draw \<open>D\<close>,
  then the value-set of \<open>D\<close> is none of the value-sets in \<open>F\<close>, \<open>D\<close> has exactly 7
  elements, they are distinct, each lies between 1 and 36, and \<open>D\<close> is sorted
  ascending. The bound of 200 on \<open>F\<close> and the shape of its elements are not needed.
\<close>

theorem generate_unique_draw_correct:
  assumes "sample_contract sample"
    and "generate_unique_draw sample g F = (Inr D, g')"
  shows "(\<forall>S\<in>set F. set D \<noteq> S) \<and> length D = 7 \<and> distinct D
         \<and> (\<forall>x\<in>set D. 1 \<le> x \<and> x \<le> 36) \<and> sorted D"
  using generate_Inr [OF assms] by auto

theorem generate_unique_draw_correct_witness:
  "sample_contract (rot_sampler 1)
   \<and> generate_unique_draw (rot_sampler 1) 0 [{1, 2, 3, 4, 5, 6, 7}]
       = (Inr [2, 3, 4, 5, 6, 7, 8], 2)
   \<and> set [2, 3, 4, 5, 6, 7, 8] \<noteq> {1, 2, 3, 4, 5, 6, 7 :: int}
   \<and> length [2, 3, 4, 5, 6, 7, 8 :: int] = 7 \<and> distinct [2, 3, 4, 5, 6, 7, 8 :: int]
   \<and> set [2, 3, 4, 5, 6, 7, 8 :: int] \<subseteq> {1..36}
   \<and> sorted [2, 3, 4, 5, 6, 7, 8 :: int]"
proof -
  have run: "generate_unique_draw (rot_sampler 1) 0 [{1, 2, 3, 4, 5, 6, 7}]
       = (Inr [2, 3, 4, 5, 6, 7, 8], 2)"
    by code_simp
  from generate_unique_draw_correct [OF sample_contract_rot run]
  have "set [2, 3, 4, 5, 6, 7, 8] \<noteq> {1, 2, 3, 4, 5, 6, 7 :: int}"
    and "set [2, 3, 4, 5, 6, 7, 8 :: int] \<subseteq> {1..36}"
    by auto
  with sample_contract_rot run show ?thesis by simp
qed

subsection \<open>The hit analyser\<close>

lemma analyse_loop_eq:
  "analyse_loop i combos ds [(4, a), (5, b), (6, c)] dets =
     ([(4, a + length (filter (\<lambda>x. hit_count ds x = 4) combos)),
       (5, b + length (filter (\<lambda>x. hit_count ds x = 5) combos)),
       (6, c + length (filter (\<lambda>x. hit_count ds x = 6) combos))],
      dets @ details_from i combos ds)"
proof (induction combos arbitrary: i a b c dets)
  case Nil
  then show ?case by simp
next
  case (Cons combo rest)
  show ?case
    by (simp add: Let_def hit_count_def detail_of_def Cons.IH)
qed

lemma analyse_hits_eq:
  "analyse_hits combos ds =
     Inr \<lparr> six_hits = length (filter (\<lambda>x. hit_count ds x = 6) combos),
           five_hits = length (filter (\<lambda>x. hit_count ds x = 5) combos),
           four_hits = length (filter (\<lambda>x. hit_count ds x = 4) combos),
           total_with_hits = length (filter (\<lambda>x. hit_count ds x = 4) combos)
             + length (filter (\<lambda>x. hit_count ds x = 5) combos)
             + length (filter (\<lambda>x. hit_count ds x = 6) combos),
           details = sort_reverse hits (details_from 0 combos ds) \<rparr>"
  using analyse_loop_eq [of 0 combos ds 0 0 0 "[]"]
  by (simp add: analyse_hits_def dict_get_def)

lemma length_details_from:
  "length (details_from i combos ds) = length (filter (\<lambda>x. 4 \<le> hit_count ds x) combos)"
  by (induction combos arbitrary: i) simp_all

lemma count_buckets:
  "\<forall>x\<in>set combos. hit_count ds x \<le> 6 \<Longrightarrow>
     length (filter (\<lambda>x. 4 \<le> hit_count ds x) combos)
       = length (filter (\<lambda>x. hit_count ds x = 4) combos)
         + length (filter (\<lambda>x. hit_count ds x = 5) combos)
         + length (filter (\<lambda>x. hit_count ds x = 6) combos)"
proof (induction combos)
  case Nil
  then show ?case by simp
next
  case (Cons x xs)
  then have "hit_count ds x \<le> 6" by simp
  then have "hit_count ds x < 4 \<or> hit_count ds x = 4 \<or> hit_count ds x = 5 \<or> hit_count ds x = 6"
    by arith
  with Cons show ?case by auto
qed

lemma hit_count_le_6:
  assumes "length c = 7" "distinct c" "finite ds" "card ds = 7" "set c \<noteq> ds"
  shows "hit_count ds c \<le> 6"
proof (rule ccontr)
  assume "\<not> hit_count ds c \<le> 6"
  moreover have c7: "card (set c) = 7" using assms(1,2) by (simp add: distinct_card)
  moreover have "card (set c \<inter> ds) \<le> card (set c)" by (simp add: card_mono)
  ultimately have full: "card (set c \<inter> ds) = 7" by (simp add: hit_count_def)
  have "set c \<inter> ds = set c"
    by (rule card_subset_eq) (simp_all add: full c7)
  moreover have "set c \<inter> ds = ds"
    by (rule card_subset_eq) (simp_all add: full assms)
  ultimately show False using assms(5) by simp
qed


lemma length_sort_reverse: "length (sort_reverse f xs) = length xs"
  by (simp add: sort_reverse_def)

lemma set_sort_reverse: "set (sort_reverse f xs) = set xs"
  by (simp add: sort_reverse_def)

lemma pipeline_hit_count:
  assumes "sample_contract sample"
    and "\<forall>c\<in>set validated. validate_combination (map PInt c) = (True, '''')"
    and "generate_unique_draw sample g (dedup validated) = (Inr result, g')"
  shows "\<forall>c\<in>set validated. hit_count (set result) c \<le> 6"
proof
  fix c assume c: "c \<in> set validated"
  from generate_Inr [OF assms(1,3)]
  have r: "set result \<notin> set (dedup validated)" "length result = 7" "distinct result"
    by simp_all
  from r(1) c have "set c \<noteq> set result" by (auto simp: dedup_def)
  moreover from assms(2) c have "length c = 7" "distinct c"
    by (simp_all add: valid_ints_iff)
  moreover from r(2,3) have "card (set result) = 7" by (simp add: distinct_card)
  ultimately show "hit_count (set result) c \<le> 6"
    by (intro hit_count_le_6) simp_all
qed

subsection \<open>The totals of the hit report\<close>

text \<open>
  C3. For every list of validated combinations and the draw that the pipeline generates
  for their value-sets, \<^verbatim>\<open>analyse_hits\<close> returns a report in which
  \<open>six_hits + five_hits + four_hits = total_with_hits\<close>, and \<open>total_with_hits\<close> is the
  number of entries of the details list.
\<close>

theorem hit_report_totals:
  assumes "sample_contract sample"
    and "\<forall>c\<in>set validated. validate_combination (map PInt c) = (True, '''')"
    and "generate_unique_draw sample g (dedup validated) = (Inr result, g')"
  shows "\<exists>report. analyse_hits validated (set result) = Inr report
     \<and> six_hits report + five_hits report + four_hits report = total_with_hits report
     \<and> total_with_hits report = length (details report)"
  using count_buckets [OF pipeline_hit_count [OF assms]]
  by (simp add: analyse_hits_eq length_sort_reverse length_details_from)

theorem hit_report_totals_witness:
  "sample_contract (rot_sampler 1)
   \<and> list_all (\<lambda>c. validate_combination (map PInt c) = (True, ''''))
        [[1, 2, 3, 4, 5, 6, 7], [7, 6, 5, 4, 3, 2, 9], [1, 2, 3, 4, 5, 20, 21],
         [36, 35, 34, 33, 32, 31, 30], [7, 6, 5, 4, 3, 2, 1]]
   \<and> generate_unique_draw (rot_sampler 1) 0
        (dedup [[1, 2, 3, 4, 5, 6, 7], [7, 6, 5, 4, 3, 2, 9], [1, 2, 3, 4, 5, 20, 21],
                [36, 35, 34, 33, 32, 31, 30], [7, 6, 5, 4, 3, 2, 1]])
       = (Inr [2, 3, 4, 5, 6, 7, 8], 2)
   \<and> (\<exists>report.
        analyse_hits [[1, 2, 3, 4, 5, 6, 7], [7, 6, 5, 4, 3, 2, 9], [1, 2, 3, 4, 5, 20, 21],
                      [36, 35, 34, 33, 32, 31, 30], [7, 6, 5, 4, 3, 2, 1]]
          (set [2, 3, 4, 5, 6, 7, 8]) = Inr report
        \<and> six_hits report = 3 \<and> five_hits report = 0 \<and> four_hits report = 1
        \<and> six_hits report + five_hits report + four_hits report = total_with_hits report
        \<and> total_with_hits report = length (details report))"
proof -
  let ?V = "[[1, 2, 3, 4, 5, 6, 7], [7, 6, 5, 4, 3, 2, 9], [1, 2, 3, 4, 5, 20, 21],
             [36, 35, 34, 33, 32, 31, 30], [7, 6, 5, 4, 3, 2, 1 :: int]]"
  have valid: "\<forall>c\<in>set ?V. validate_combination (map PInt c) = (True, '''')"
    by code_simp
  have run: "generate_unique_draw (rot_sampler 1) 0 (dedup ?V) = (Inr [2, 3, 4, 5, 6, 7, 8], 2)"
    by code_simp
  from hit_report_totals [OF sample_contract_rot valid run]
  obtain report where r: "analyse_hits ?V (set [2, 3, 4, 5, 6, 7, 8]) = Inr report"
    "six_hits report + five_hits report + four_hits report = total_with_hits report"
    "total_with_hits report = length (details report)"
    by blast
  have "six_hits (projr (analyse_hits ?V (set [2, 3, 4, 5, 6, 7, 8]))) = 3"
    "five_hits (projr (analyse_hits ?V (set [2, 3, 4, 5, 6, 7, 8]))) = 0"
    "four_hits (projr (analyse_hits ?V (set [2, 3, 4, 5, 6, 7, 8]))) = 1"
    by code_simp+
  with r(1) have "six_hits report = 3" "five_hits report = 0" "four_hits report = 1"
    by simp_all
  moreover from valid
  have "list_all (\<lambda>c. validate_combination (map PInt c) = (True, '''')) ?V"
    by (simp add: list_all_iff)
  ultimately show ?thesis
    using r sample_contract_rot run by blast
qed

subsection \<open>The order of the details\<close>

lemma index_details_from:
  "d \<in> set (details_from i combos ds) \<Longrightarrow> i < index d"
proof (induction combos arbitrary: i)
  case Nil
  then show ?case by simp
next
  case (Cons c cs)
  from Cons.prems consider "d = detail_of i c ds" | "d \<in> set (details_from (i + 1) cs ds)"
    by (auto split: if_splits)
  then show ?case
  proof cases
    case 1
    then show ?thesis by (simp add: detail_of_def)
  next
    case 2
    from Cons.IH [OF 2] show ?thesis by simp
  qed
qed

lemma sorted_index_details_from:
  "sorted_wrt (\<lambda>a b. index a < index b) (details_from i combos ds)"
proof (induction combos arbitrary: i)
  case Nil
  then show ?case by simp
next
  case (Cons c cs)
  have "\<forall>d\<in>set (details_from (i + 1) cs ds). index (detail_of i c ds) < index d"
    using index_details_from [of _ "i + 1" cs ds] by (auto simp: detail_of_def)
  with Cons.IH [of "i + 1"] show ?case by simp
qed

lemma sorted_insort_before:
  assumes "sorted_wrt before ys" and "\<forall>y\<in>set ys. index x < index y"
  shows "sorted_wrt before (insort_key (\<lambda>d. - int (hits d)) x ys)"
  using assms
proof (induction ys)
  case Nil
  then show ?case by simp
next
  case (Cons y ys)
  show ?case
  proof (cases "hits y \<le> hits x")
    case True
    have "before x z" if "z \<in> set (y # ys)" for z
    proof -
      from that Cons.prems(1) have "hits z \<le> hits y"
        by (auto simp: before_def)
      with True that Cons.prems(2) show ?thesis
        by (auto simp: before_def)
    qed
    with True Cons.prems(1) show ?thesis by simp
  next
    case False
    then have "before y x" by (simp add: before_def)
    moreover from Cons have "sorted_wrt before (insort_key (\<lambda>d. - int (hits d)) x ys)"
      by simp
    ultimately show ?thesis
      using False Cons.prems(1) by (auto simp: set_insort_key)
  qed
qed

lemma sorted_sort_reverse:
  "sorted_wrt (\<lambda>a b. index a < index b) xs \<Longrightarrow> sorted_wrt before (sort_reverse hits xs)"
proof (induction xs)
  case Nil
  then show ?case by (simp add: sort_reverse_def)
next
  case (Cons x xs)
  then have "sorted_wrt before (sort_reverse hits xs)"
    and "\<forall>y\<in>set (sort_reverse hits xs). index x < index y"
    by (simp_all add: set_sort_reverse)
  then show ?case
    unfolding sort_reverse_def sort_key_simps by (rule sorted_insort_before)
qed

text \<open>
  C8. The details list of \<^verbatim>\<open>analyse_hits\<close> is sorted by descending hit count, and
  of two records with equal hit counts the one with the smaller 1-based index stands
  first. This holds for every list of combinations and every draw set.
\<close>

theorem details_order:
  "\<exists>report. analyse_hits combos ds = Inr report
     \<and> (\<forall>i j. i < j \<and> j < length (details report) \<longrightarrow>
           hits (details report ! j) \<le> hits (details report ! i)
           \<and> (hits (details report ! i) = hits (details report ! j) \<longrightarrow>
                index (details report ! i) < index (details report ! j)))"
proof -
  let ?D = "sort_reverse hits (details_from 0 combos ds)"
  have "sorted_wrt before ?D"
    by (rule sorted_sort_reverse) (rule sorted_index_details_from)
  then have nth: "before (?D ! i) (?D ! j)" if "i < j" "j < length ?D" for i j
    using that by (simp add: sorted_wrt_iff_nth_less)
  have "hits (?D ! j) \<le> hits (?D ! i)
        \<and> (hits (?D ! i) = hits (?D ! j) \<longrightarrow> index (?D ! i) < index (?D ! j))"
    if "i < j" "j < length ?D" for i j
    using nth [OF that] by (auto simp: before_def)
  then show ?thesis
    by (simp add: analyse_hits_eq)
qed

theorem details_order_witness:
  "analyse_hits [[1, 2, 3, 4, 8, 9, 10], [7, 6, 5, 4, 3, 2, 9], [1, 2, 3, 4, 5, 20, 21],
                 [30, 31, 32, 33, 34, 35, 36], [9, 7, 6, 5, 4, 3, 1], [11, 12, 4, 3, 2, 1, 13]]
     {1, 2, 3, 4, 5, 6, 7}
   = Inr \<lparr> six_hits = 2, five_hits = 1, four_hits = 2, total_with_hits = 5,
       details =
         [\<lparr> index = 2, combination = [2, 3, 4, 5, 6, 7, 9], hits = 6,
            hit_numbers = [2, 3, 4, 5, 6, 7], miss_numbers = [9] \<rparr>,
          \<lparr> index = 5, combination = [1, 3, 4, 5, 6, 7, 9], hits = 6,
            hit_numbers = [1, 3, 4, 5, 6, 7], miss_numbers = [9] \<rparr>,
          \<lparr> index = 3, combination = [1, 2, 3, 4, 5, 20, 21], hits = 5,
            hit_numbers = [1, 2, 3, 4, 5], miss_numbers = [20, 21] \<rparr>,
          \<lparr> index = 1, combination = [1, 2, 3, 4, 8, 9, 10], hits = 4,
            hit_numbers = [1, 2, 3, 4], miss_numbers = [8, 9, 10] \<rparr>,
          \<lparr> index = 6, combination = [1, 2, 3, 4, 11, 12, 13], hits = 4,
            hit_numbers = [1, 2, 3, 4], miss_numbers = [11, 12, 13] \<rparr>] \<rparr>
   \<and> (\<exists>report.
        analyse_hits [[1, 2, 3, 4, 8, 9, 10], [7, 6, 5, 4, 3, 2, 9], [1, 2, 3, 4, 5, 20, 21],
                 [30, 31, 32, 33, 34, 35, 36], [9, 7, 6, 5, 4, 3, 1], [11, 12, 4, 3, 2, 1, 13]]
          {1, 2, 3, 4, 5, 6, 7} = Inr report
        \<and> (0::nat) < 1 \<and> 1 < length (details report)
        \<and> hits (details report ! 1) \<le> hits (details report ! 0)
        \<and> hits (details report ! 0) = hits (details report ! 1)
        \<and> index (details report ! 0) < index (details report ! 1))"
proof -
  let ?V = "[[1, 2, 3, 4, 8, 9, 10], [7, 6, 5, 4, 3, 2, 9], [1, 2, 3, 4, 5, 20, 21],
             [30, 31, 32, 33, 34, 35, 36], [9, 7, 6, 5, 4, 3, 1], [11, 12, 4, 3, 2, 1, 13 :: int]]"
  let ?R = "\<lparr> six_hits = 2, five_hits = 1, four_hits = 2, total_with_hits = 5,
       details =
         [\<lparr> index = 2, combination = [2, 3, 4, 5, 6, 7, 9], hits = 6,
            hit_numbers = [2, 3, 4, 5, 6, 7], miss_numbers = [9] \<rparr>,
          \<lparr> index = 5, combination = [1, 3, 4, 5, 6, 7, 9], hits = 6,
            hit_numbers = [1, 3, 4, 5, 6, 7], miss_numbers = [9] \<rparr>,
          \<lparr> index = 3, combination = [1, 2, 3, 4, 5, 20, 21], hits = 5,
            hit_numbers = [1, 2, 3, 4, 5], miss_numbers = [20, 21] \<rparr>,
          \<lparr> index = 1, combination = [1, 2, 3, 4, 8, 9, 10], hits = 4,
            hit_numbers = [1, 2, 3, 4], miss_numbers = [8, 9, 10] \<rparr>,
          \<lparr> index = 6, combination = [1, 2, 3, 4, 11, 12, 13], hits = 4,
            hit_numbers = [1, 2, 3, 4], miss_numbers = [11, 12, 13] \<rparr>] \<rparr>"
  have run: "analyse_hits ?V {1, 2, 3, 4, 5, 6, 7} = Inr ?R"
    by code_simp
  from details_order [of ?V "{1, 2, 3, 4, 5, 6, 7}"]
  obtain report where r: "analyse_hits ?V {1, 2, 3, 4, 5, 6, 7} = Inr report"
    and ord: "\<And>i j. i < j \<and> j < length (details report) \<Longrightarrow>
           hits (details report ! j) \<le> hits (details report ! i)
           \<and> (hits (details report ! i) = hits (details report ! j) \<longrightarrow>
                index (details report ! i) < index (details report ! j))"
    by blast
  from r run have eq: "report = ?R" by simp
  then have len: "(0::nat) < 1 \<and> 1 < length (details report)" by simp
  from eq have same: "hits (details report ! 0) = hits (details report ! 1)" by simp
  from ord [OF len] same
  have "hits (details report ! 1) \<le> hits (details report ! 0)
        \<and> index (details report ! 0) < index (details report ! 1)" by blast
  with run r len same show ?thesis by blast
qed

subsection \<open>The detail records\<close>







subsection \<open>The request handler\<close>

lemma py_int_exn:
  "py_int ti n = Inl e \<Longrightarrow> e = ValueError \<or> e = TypeError \<or> e = OverflowError"
  by (cases "(ti, n)" rule: py_int.cases) (auto split: option.splits)

lemma int_all_exn:
  "int_all ti ns = Inl e \<Longrightarrow> \<exists>n\<in>set ns. py_int ti n = Inl e"
  by (induction ns) (auto split: sum.splits)

lemma int_all_Inr:
  "int_all ti ns = Inr numbers \<Longrightarrow> n \<in> set ns \<Longrightarrow> \<exists>i. py_int ti n = Inr i"
  by (induction ns arbitrary: numbers) (auto split: sum.splits)

lemma int_all_fails:
  assumes "n \<in> set ns" and "py_int ti n = Inl e"
  shows "\<exists>e'. int_all ti ns = Inl e'"
proof (cases "int_all ti ns")
  case (Inl e')
  then show ?thesis by blast
next
  case (Inr numbers)
  from int_all_Inr [OF Inr assms(1)] assms(2) show ?thesis by simp
qed

lemma validate_loop_True: "validate_loop ns seen = (True, m) \<Longrightarrow> m = []"
  by (induction ns arbitrary: seen) (auto split: option.splits if_splits)

lemma validate_combination_True: "validate_combination ns = (True, m) \<Longrightarrow> m = []"
  by (auto simp: validate_combination_def split: if_splits dest: validate_loop_True)


lemma validate_all_Inl:
  "validate_all ti i batch acc = Inl out \<Longrightarrow>
     (\<exists>e. out = Unhandled e) \<or> (\<exists>m. out = Response (ErrorJson m) 400)"
  by (induction batch arbitrary: i acc)
    (auto split: pyval.splits sum.splits prod.splits if_splits)

lemma validate_all_Inr:
  "validate_all ti i batch acc = Inr validated \<Longrightarrow>
     \<exists>vs. validated = acc @ vs \<and> list_all2 (coerced ti) batch vs"
proof (induction batch arbitrary: i acc)
  case Nil
  then show ?case by simp
next
  case (Cons c cs)
  from Cons.prems obtain ns numbers where c: "c = PList ns" "int_all ti ns = Inr numbers"
    "validate_combination (map PInt numbers) = (True, '''')"
    and rest: "validate_all ti (i + 1) cs (acc @ [numbers]) = Inr validated"
    by (auto split: pyval.splits sum.splits prod.splits if_splits
        dest: validate_combination_True)
  from Cons.IH [OF rest] obtain vs where "validated = (acc @ [numbers]) @ vs"
    "list_all2 (coerced ti) cs vs" by blast
  with c have "validated = acc @ (numbers # vs)" "list_all2 (coerced ti) (c # cs) (numbers # vs)"
    by (simp_all add: coerced_def)
  then show ?case by blast
qed

lemma validate_all_append:
  "validate_all ti i pre acc = Inr v \<Longrightarrow>
     validate_all ti i (pre @ rest) acc = validate_all ti (i + length pre) rest v"
proof (induction pre arbitrary: i acc)
  case Nil
  then show ?case by simp
next
  case (Cons c cs)
  from Cons.prems obtain ns numbers where c: "c = PList ns" "int_all ti ns = Inr numbers"
    "validate_combination (map PInt numbers) = (True, '''')"
    and rest: "validate_all ti (i + 1) cs (acc @ [numbers]) = Inr v"
    by (auto split: pyval.splits sum.splits prod.splits if_splits
        dest: validate_combination_True)
  from Cons.IH [OF rest] c show ?case by simp
qed

lemma check_request_Inl:
  "check_request ti data = Inl out \<Longrightarrow>
     (\<exists>e. out = Unhandled e) \<or> (\<exists>m. out = Response (ErrorJson m) 400)"
  unfolding check_request_def
  by (auto split: if_splits sum.splits bool.splits pyval.splits dest: validate_all_Inl)

lemma check_request_Inr:
  "check_request ti data = Inr validated \<Longrightarrow>
     \<exists>batch. py_getitem data ''combinations'' = Inr (PList batch) \<and> batch \<noteq> []
       \<and> length batch \<le> 200 \<and> validate_all ti 0 batch [] = Inr validated"
  unfolding check_request_def
  by (auto simp: MAX_COMBINATIONS_def split: if_splits sum.splits bool.splits pyval.splits)

lemma check_request_payload:
  "batch \<noteq> [] \<Longrightarrow> length batch \<le> 200 \<Longrightarrow>
     check_request ti (payload batch) = validate_all ti 0 batch []"
  by (simp add: check_request_def payload_def MAX_COMBINATIONS_def)

lemma respond_Inl:
  assumes "fst (generate_unique_draw sample g (dedup validated)) = Inl e"
  shows "fst (respond sample g validated) =
    Response (ErrorJson ''Could not generate a non-matching draw after 10,000 attempts.'') 500"
proof -
  from generate_Inl_msg [OF assms]
  have e: "e = RuntimeError ''Could not generate a non-matching draw after 10,000 attempts.''" .
  obtain g' where "generate_unique_draw sample g (dedup validated) = (Inl e, g')"
    using assms by (cases "generate_unique_draw sample g (dedup validated)") simp
  then show ?thesis
    by (simp add: respond_def e)
qed

lemma respond_Inr:
  assumes "generate_unique_draw sample g (dedup validated) = (Inr result, g')"
  shows "\<exists>report. analyse_hits validated (set result) = Inr report \<and>
    respond sample g validated =
      (Response (DrawJson
          \<lparr> draw_numbers = result,
            combinations_submitted = length validated,
            unique_combinations = length (dedup validated),
            message = ''Draw generated! It does not match any of your ''
                      @ str_nat (length (dedup validated)) @ '' unique combination(s).'',
            hit_report = report \<rparr>) 200, g')"
  using assms by (simp add: respond_def analyse_hits_eq Let_def)

lemma draw_DrawJson:
  assumes "fst (draw ti sample g data) = Response (DrawJson r) st"
  shows "\<exists>validated g'. check_request ti data = Inr validated
    \<and> generate_unique_draw sample g (dedup validated) = (Inr (draw_numbers r), g')
    \<and> combinations_submitted r = length validated
    \<and> unique_combinations r = length (dedup validated)
    \<and> st = 200"
proof (cases "check_request ti data")
  case (Inl out)
  with check_request_Inl [OF Inl] assms show ?thesis
    by (auto simp: draw_def)
next
  case (Inr validated)
  obtain res g' where gen: "generate_unique_draw sample g (dedup validated) = (res, g')"
    by (cases "generate_unique_draw sample g (dedup validated)")
  show ?thesis
  proof (cases res)
    case (Inl e)
    with gen have "fst (generate_unique_draw sample g (dedup validated)) = Inl e" by simp
    from respond_Inl [OF this] assms Inr show ?thesis
      by (simp add: draw_def)
  next
    case r: (Inr result)
    from respond_Inr [OF gen [unfolded r]] assms Inr gen r show ?thesis
      by (auto simp: draw_def)
  qed
qed

subsection \<open>Concrete runs\<close>

lemma state_before_rot_0: "state_before (rot_sampler 0) k g = g"
  by (induction k arbitrary: g) (simp_all add: rot_sampler_def)

lemma attempt_draw_rot_0: "attempt_draw (rot_sampler 0) 0 k = [1, 2, 3, 4, 5, 6, 7]"
  by (simp add: attempt_draw_def state_before_rot_0 rot_sampler_def LOTTO_MIN_def
      LOTTO_MAX_def NUMBERS_PER_COMBINATION_def upto_rec1)

lemma str_nat_1: "str_nat (Suc 0) = ''1''"
  by (simp add: str_nat.simps digit_char_def)

lemmas run_simps = check_request_payload validate_combination_def NUMBERS_PER_COMBINATION_def
  LOTTO_MIN_def LOTTO_MAX_def str_nat_1 str_nat_7

lemma floor_7_5: "\<lfloor>15 / 2 :: rat\<rfloor> = 7"
  by (simp add: floor_eq_iff)

subsection \<open>Failure of the draw generation\<close>

text \<open>
  C4. \<^verbatim>\<open>generate_unique_draw\<close> raises its RuntimeError if and only if each of the
  10,000 sampling attempts gives a value-set of the forbidden collection. When it raises
  after a request has passed validation, the handler answers with status 500 and a body
  that holds the error text only. Status 500 has no other source in the handler, and a
  request that fails validation ends with status 400 or with an exception that the
  handler does not catch.
\<close>

theorem generation_failure_reported:
  "(fst (generate_unique_draw sample g F)
      = Inl (RuntimeError ''Could not generate a non-matching draw after 10,000 attempts.'')
    \<longleftrightarrow> (\<forall>k<10000. set (attempt_draw sample g k) \<in> set F))
   \<and> (check_request ti data = Inr validated
        \<and> fst (generate_unique_draw sample g (dedup validated))
            = Inl (RuntimeError
                ''Could not generate a non-matching draw after 10,000 attempts.'')
      \<longrightarrow> fst (draw ti sample g data)
            = Response (ErrorJson
                ''Could not generate a non-matching draw after 10,000 attempts.'') 500)
   \<and> (\<forall>b. fst (draw ti sample g data) = Response b 500 \<longrightarrow>
          b = ErrorJson ''Could not generate a non-matching draw after 10,000 attempts.''
          \<and> (\<exists>validated. check_request ti data = Inr validated
                \<and> fst (generate_unique_draw sample g (dedup validated))
                    = Inl (RuntimeError
                        ''Could not generate a non-matching draw after 10,000 attempts.'')))
   \<and> (\<forall>out. check_request ti data = Inl out \<longrightarrow>
          fst (draw ti sample g data) = out
          \<and> ((\<exists>e. out = Unhandled e) \<or> (\<exists>m. out = Response (ErrorJson m) 400)))"
proof (intro conjI allI impI)
  show "fst (generate_unique_draw sample g F)
      = Inl (RuntimeError ''Could not generate a non-matching draw after 10,000 attempts.'')
    \<longleftrightarrow> (\<forall>k<10000. set (attempt_draw sample g k) \<in> set F)"
    by (rule generate_Inl_iff)
next
  assume "check_request ti data = Inr validated
        \<and> fst (generate_unique_draw sample g (dedup validated))
            = Inl (RuntimeError
                ''Could not generate a non-matching draw after 10,000 attempts.'')"
  then show "fst (draw ti sample g data)
            = Response (ErrorJson
                ''Could not generate a non-matching draw after 10,000 attempts.'') 500"
    by (simp add: draw_def respond_Inl)
next
  fix b assume b: "fst (draw ti sample g data) = Response b 500"
  show "b = ErrorJson ''Could not generate a non-matching draw after 10,000 attempts.''"
    and "\<exists>validated. check_request ti data = Inr validated
                \<and> fst (generate_unique_draw sample g (dedup validated))
                    = Inl (RuntimeError
                        ''Could not generate a non-matching draw after 10,000 attempts.'')"
  proof -
    have "b = ErrorJson ''Could not generate a non-matching draw after 10,000 attempts.''
      \<and> (\<exists>validated. check_request ti data = Inr validated
                \<and> fst (generate_unique_draw sample g (dedup validated))
                    = Inl (RuntimeError
                        ''Could not generate a non-matching draw after 10,000 attempts.''))"
    proof (cases "check_request ti data")
      case (Inl out)
      with check_request_Inl [OF Inl] b show ?thesis
        by (auto simp: draw_def)
    next
      case (Inr validated)
      obtain res g' where gen: "generate_unique_draw sample g (dedup validated) = (res, g')"
        by (cases "generate_unique_draw sample g (dedup validated)")
      show ?thesis
      proof (cases res)
        case (Inl e)
        with gen have f: "fst (generate_unique_draw sample g (dedup validated)) = Inl e"
          by simp
        from respond_Inl [OF f] generate_Inl_msg [OF f] f b Inr show ?thesis
          by (simp add: draw_def)
      next
        case r: (Inr result)
        from respond_Inr [OF gen [unfolded r]] b Inr show ?thesis
          by (auto simp: draw_def)
      qed
    qed
    then show "b = ErrorJson ''Could not generate a non-matching draw after 10,000 attempts.''"
      and "\<exists>validated. check_request ti data = Inr validated
                \<and> fst (generate_unique_draw sample g (dedup validated))
                    = Inl (RuntimeError
                        ''Could not generate a non-matching draw after 10,000 attempts.'')"
      by blast+
  qed
next
  fix out assume "check_request ti data = Inl out"
  then show "fst (draw ti sample g data) = out"
    by (simp add: draw_def)
next
  fix out assume "check_request ti data = Inl out"
  then show "(\<exists>e. out = Unhandled e) \<or> (\<exists>m. out = Response (ErrorJson m) 400)"
    by (rule check_request_Inl)
qed

theorem generation_failure_reported_witness:
  "fst (generate_unique_draw (rot_sampler 0) 0 [{1, 2, 3, 4, 5, 6, 7}])
      = Inl (RuntimeError ''Could not generate a non-matching draw after 10,000 attempts.'')
   \<and> check_request example_int (payload [PList (map PInt [7, 6, 5, 4, 3, 2, 1])])
      = Inr [[7, 6, 5, 4, 3, 2, 1]]
   \<and> fst (draw example_int (rot_sampler 0) 0 (payload [PList (map PInt [7, 6, 5, 4, 3, 2, 1])]))
      = Response (ErrorJson
          ''Could not generate a non-matching draw after 10,000 attempts.'') 500
   \<and> check_request example_int (payload [PList (map PInt [7, 6, 5, 4, 3, 2])])
      = Inl (Response (ErrorJson
          ''Combination 1: Each combination must have exactly 7 numbers.'') 400)
   \<and> fst (draw example_int (rot_sampler 0) 0 (payload [PList (map PInt [7, 6, 5, 4, 3, 2])]))
      = Response (ErrorJson
          ''Combination 1: Each combination must have exactly 7 numbers.'') 400"
proof -
  let ?msg = "''Could not generate a non-matching draw after 10,000 attempts.''"
  let ?ok = "payload [PList (map PInt [7, 6, 5, 4, 3, 2, 1])]"
  let ?bad = "payload [PList (map PInt [7, 6, 5, 4, 3, 2])]"
  have all: "\<forall>k<10000. set (attempt_draw (rot_sampler 0) 0 k) \<in> set [{1, 2, 3, 4, 5, 6, 7}]"
    by (simp add: attempt_draw_rot_0)
  have chk: "check_request example_int ?ok = Inr [[7, 6, 5, 4, 3, 2, 1]]"
    by (simp add: run_simps)
  have dd: "dedup [[7, 6, 5, 4, 3, 2, 1]] = [{1, 2, 3, 4, 5, 6, 7}]"
    by (auto simp: dedup_def)
  have bad: "check_request example_int ?bad = Inl (Response (ErrorJson
          ''Combination 1: Each combination must have exactly 7 numbers.'') 400)"
    by (simp add: run_simps)
  note t1 = generation_failure_reported
    [of "rot_sampler 0" 0 "[{1, 2, 3, 4, 5, 6, 7}]" example_int ?ok "[[7, 6, 5, 4, 3, 2, 1]]"]
  note t2 = generation_failure_reported
    [of "rot_sampler 0" 0 "[{1, 2, 3, 4, 5, 6, 7}]" example_int ?bad "[]"]
  from t1 all have raises: "fst (generate_unique_draw (rot_sampler 0) 0 [{1, 2, 3, 4, 5, 6, 7}])
      = Inl (RuntimeError ?msg)" by blast
  from t1 have imp: "check_request example_int ?ok = Inr [[7, 6, 5, 4, 3, 2, 1]]
        \<and> fst (generate_unique_draw (rot_sampler 0) 0 (dedup [[7, 6, 5, 4, 3, 2, 1]]))
            = Inl (RuntimeError ?msg)
      \<longrightarrow> fst (draw example_int (rot_sampler 0) 0 ?ok) = Response (ErrorJson ?msg) 500"
    by (rule conjunct1 [OF conjunct2])
  from raises have gen: "fst (generate_unique_draw (rot_sampler 0) 0 (dedup [[7, 6, 5, 4, 3, 2, 1]]))
            = Inl (RuntimeError ?msg)"
    unfolding dd .
  from imp chk gen have r500: "fst (draw example_int (rot_sampler 0) 0 ?ok) = Response (ErrorJson ?msg) 500"
    by blast
  from t2 have "\<forall>out. check_request example_int ?bad = Inl out \<longrightarrow>
          fst (draw example_int (rot_sampler 0) 0 ?bad) = out
          \<and> ((\<exists>e. out = Unhandled e) \<or> (\<exists>m. out = Response (ErrorJson m) 400))"
    by (rule conjunct2 [OF conjunct2 [OF conjunct2]])
  with bad have r400: "fst (draw example_int (rot_sampler 0) 0 ?bad) = Response (ErrorJson
          ''Combination 1: Each combination must have exactly 7 numbers.'') 400"
    by blast
  from raises chk r500 bad r400 show ?thesis
    by (intro conjI)
qed

lemma dedup_example:
  "dedup [[1, 2, 3, 4, 5, 6, 7], [7, 6, 5, 4, 3, 2, 1]] = [{1, 2, 3, 4, 5, 6, 7}]"
proof -
  have "set [7, 6, 5, 4, 3, 2, 1 :: int] = set [1, 2, 3, 4, 5, 6, 7]" by auto
  then show ?thesis by (simp add: dedup_def)
qed

lemma draw_example:
  "\<exists>m report.
     draw example_int (rot_sampler 1) 0
       (payload [PList (map PInt [1, 2, 3, 4, 5, 6, 7]), PList (map PInt [7, 6, 5, 4, 3, 2, 1])])
     = (Response (DrawJson
          \<lparr> draw_numbers = [2, 3, 4, 5, 6, 7, 8], combinations_submitted = 2,
            unique_combinations = 1, message = m, hit_report = report \<rparr>) 200, 2)"
proof -
  let ?V = "[[1, 2, 3, 4, 5, 6, 7], [7, 6, 5, 4, 3, 2, 1 :: int]]"
  have chk: "check_request example_int
       (payload [PList (map PInt [1, 2, 3, 4, 5, 6, 7]), PList (map PInt [7, 6, 5, 4, 3, 2, 1])])
     = Inr ?V"
    by (simp add: run_simps)
  have run: "generate_unique_draw (rot_sampler 1) 0 (dedup ?V) = (Inr [2, 3, 4, 5, 6, 7, 8], 2)"
    by code_simp
  from respond_Inr [OF run] chk show ?thesis
    by (auto simp: draw_def dedup_example)
qed

lemma draw_Draw_validated:
  assumes "fst (draw ti sample g data) = Response (DrawJson r) st"
  shows "\<exists>batch validated g'. check_request ti data = Inr validated
    \<and> py_getitem data ''combinations'' = Inr (PList batch)
    \<and> batch \<noteq> [] \<and> length batch \<le> 200
    \<and> list_all2 (coerced ti) batch validated
    \<and> generate_unique_draw sample g (dedup validated) = (Inr (draw_numbers r), g')
    \<and> combinations_submitted r = length validated
    \<and> unique_combinations r = length (dedup validated)"
proof -
  from draw_DrawJson [OF assms] obtain validated g'
    where v: "check_request ti data = Inr validated"
      "generate_unique_draw sample g (dedup validated) = (Inr (draw_numbers r), g')"
      "combinations_submitted r = length validated"
      "unique_combinations r = length (dedup validated)"
    by blast
  from check_request_Inr [OF v(1)] obtain batch
    where b: "py_getitem data ''combinations'' = Inr (PList batch)" "batch \<noteq> []"
      "length batch \<le> 200" "validate_all ti 0 batch [] = Inr validated"
    by blast
  from validate_all_Inr [OF b(4)] have "list_all2 (coerced ti) batch validated" by simp
  with v b show ?thesis by blast
qed

subsection \<open>Counts of the response\<close>

text \<open>
  C7. On every successful response, \<open>combinations_submitted\<close> is the number of validated
  combinations before deduplication, and \<open>unique_combinations\<close> is the number of distinct
  value-sets among them: combinations with the same numbers in any order count once.
\<close>

theorem dedup_counts:
  assumes "fst (draw ti sample g data) = Response (DrawJson r) st"
  shows "\<exists>batch validated.
      py_getitem data ''combinations'' = Inr (PList batch)
      \<and> list_all2 (coerced ti) batch validated
      \<and> combinations_submitted r = length validated
      \<and> unique_combinations r = card (set ` set validated)"
proof -
  from draw_Draw_validated [OF assms] obtain batch validated
    where "py_getitem data ''combinations'' = Inr (PList batch)"
      "list_all2 (coerced ti) batch validated"
      "combinations_submitted r = length validated"
      "unique_combinations r = length (dedup validated)"
    by blast
  moreover have "length (dedup validated) = card (set ` set validated)"
    by (simp add: dedup_def length_remdups_card_conv)
  ultimately show ?thesis by auto
qed

theorem dedup_counts_witness:
  "\<exists>r. fst (draw example_int (rot_sampler 1) 0
       (payload [PList (map PInt [1, 2, 3, 4, 5, 6, 7]), PList (map PInt [7, 6, 5, 4, 3, 2, 1])]))
       = Response (DrawJson r) 200
     \<and> combinations_submitted r = 2 \<and> unique_combinations r = 1
     \<and> (\<exists>validated. list_all2 (coerced example_int)
           [PList (map PInt [1, 2, 3, 4, 5, 6, 7]), PList (map PInt [7, 6, 5, 4, 3, 2, 1])]
           validated
         \<and> combinations_submitted r = length validated
         \<and> unique_combinations r = card (set ` set validated))"
proof -
  let ?B = "[PList (map PInt [1, 2, 3, 4, 5, 6, 7]), PList (map PInt [7, 6, 5, 4, 3, 2, 1])]"
  from draw_example obtain m report where
    d: "draw example_int (rot_sampler 1) 0 (payload ?B)
     = (Response (DrawJson
          \<lparr> draw_numbers = [2, 3, 4, 5, 6, 7, 8], combinations_submitted = 2,
            unique_combinations = 1, message = m, hit_report = report \<rparr>) 200, 2)"
    by blast
  let ?r = "\<lparr> draw_numbers = [2, 3, 4, 5, 6, 7, 8], combinations_submitted = 2,
            unique_combinations = 1, message = m, hit_report = report \<rparr>"
  from d have f: "fst (draw example_int (rot_sampler 1) 0 (payload ?B)) = Response (DrawJson ?r) 200"
    by simp
  from dedup_counts [OF f] obtain batch validated
    where "py_getitem (payload ?B) ''combinations'' = Inr (PList batch)"
      and c: "list_all2 (coerced example_int) batch validated"
      "combinations_submitted ?r = length validated"
      "unique_combinations ?r = card (set ` set validated)"
    by blast
  then have "batch = ?B" by (simp add: payload_def)
  with c f show ?thesis
    by (intro exI [of _ ?r] conjI exI [of _ validated]) simp_all
qed

text \<open>
  C10. On every successful response
  \<open>1 \<le> unique_combinations \<le> combinations_submitted \<le> 200\<close>, and the field
  \<^verbatim>\<open>draw\<close> is the list that \<^verbatim>\<open>generate_unique_draw\<close> returned for the deduplicated
  value-sets of the validated combinations.
\<close>

theorem response_counts:
  assumes "fst (draw ti sample g data) = Response (DrawJson r) st"
  shows "1 \<le> unique_combinations r
     \<and> unique_combinations r \<le> combinations_submitted r
     \<and> combinations_submitted r \<le> 200
     \<and> (\<exists>validated g'. check_request ti data = Inr validated
           \<and> generate_unique_draw sample g (dedup validated) = (Inr (draw_numbers r), g'))"
proof -
  from draw_Draw_validated [OF assms] obtain batch validated g'
    where v: "check_request ti data = Inr validated"
      "batch \<noteq> []" "length batch \<le> 200" "list_all2 (coerced ti) batch validated"
      "generate_unique_draw sample g (dedup validated) = (Inr (draw_numbers r), g')"
      "combinations_submitted r = length validated"
      "unique_combinations r = length (dedup validated)"
    by blast
  from v(4) have len: "length validated = length batch"
    by (simp add: list_all2_lengthD)
  with v(2) have "validated \<noteq> []" by auto
  then have "dedup validated \<noteq> []" by (simp add: dedup_def)
  then have "1 \<le> length (dedup validated)" by (cases "dedup validated") simp_all
  moreover have "length (dedup validated) \<le> length validated"
    unfolding dedup_def using length_remdups_leq [of "map set validated"] by simp
  ultimately show ?thesis using v len by auto
qed

theorem response_counts_witness:
  "\<exists>r. fst (draw example_int (rot_sampler 1) 0
       (payload [PList (map PInt [1, 2, 3, 4, 5, 6, 7]), PList (map PInt [7, 6, 5, 4, 3, 2, 1])]))
       = Response (DrawJson r) 200
     \<and> draw_numbers r = [2, 3, 4, 5, 6, 7, 8]
     \<and> 1 \<le> unique_combinations r
     \<and> unique_combinations r \<le> combinations_submitted r
     \<and> combinations_submitted r \<le> 200
     \<and> (\<exists>validated g'.
          check_request example_int (payload [PList (map PInt [1, 2, 3, 4, 5, 6, 7]),
                                  PList (map PInt [7, 6, 5, 4, 3, 2, 1])]) = Inr validated
          \<and> generate_unique_draw (rot_sampler 1) 0 (dedup validated)
              = (Inr (draw_numbers r), g'))"
proof -
  let ?B = "[PList (map PInt [1, 2, 3, 4, 5, 6, 7]), PList (map PInt [7, 6, 5, 4, 3, 2, 1])]"
  from draw_example obtain m report where
    d: "draw example_int (rot_sampler 1) 0 (payload ?B)
     = (Response (DrawJson
          \<lparr> draw_numbers = [2, 3, 4, 5, 6, 7, 8], combinations_submitted = 2,
            unique_combinations = 1, message = m, hit_report = report \<rparr>) 200, 2)"
    by blast
  let ?r = "\<lparr> draw_numbers = [2, 3, 4, 5, 6, 7, 8], combinations_submitted = 2,
            unique_combinations = 1, message = m, hit_report = report \<rparr>"
  from d have f: "fst (draw example_int (rot_sampler 1) 0 (payload ?B)) = Response (DrawJson ?r) 200"
    by simp
  from response_counts [OF f] f show ?thesis
    by (intro exI [of _ ?r]) simp
qed

subsection \<open>Elements that are no integers\<close>

lemma validate_loop_nonint:
  "validate_loop pre seen = (True, '''') \<Longrightarrow> isinstance_int n = None \<Longrightarrow>
     validate_loop (pre @ n # post) seen = (False, ''All numbers must be integers.'')"
  by (induction pre arbitrary: seen) (auto split: option.splits if_splits)

lemma check_request_batch:
  assumes "py_getitem data ''combinations'' = Inr (PList batch)"
    and "batch \<noteq> []" and "length batch \<le> 200"
  shows "check_request ti data = validate_all ti 0 batch []"
proof -
  from assms(1) obtain kvs where d: "data = PDict kvs"
    and m: "map_of kvs ''combinations'' = Some (PList batch)"
    by (cases data) (auto split: option.splits)
  from m have "(''combinations'', PList batch) \<in> set kvs" by (rule map_of_SomeD)
  then have "kvs \<noteq> []" and "''combinations'' \<in> fst ` set kvs" by force+
  with d m assms(2,3) show ?thesis
    by (simp add: check_request_def MAX_COMBINATIONS_def)
qed

lemma check_request_at:
  assumes "py_getitem data ''combinations'' = Inr (PList (pre @ c # rest))"
    and "length (pre @ c # rest) \<le> 200"
    and "validate_all ti 0 pre [] = Inr validated"
  shows "check_request ti data = validate_all ti (length pre) (c # rest) validated"
  using check_request_batch [OF assms(1) _ assms(2), of ti]
    validate_all_append [OF assms(3), of "c # rest"]
  by simp

lemma int_all_not_coercible:
  assumes "n \<in> set ns" and "py_int ti n = Inl ValueError \<or> py_int ti n = Inl TypeError"
    and "\<forall>x\<in>set ns. py_int ti x \<noteq> Inl OverflowError"
  shows "int_all ti ns = Inl ValueError \<or> int_all ti ns = Inl TypeError"
proof -
  from assms(1,2) obtain e where "py_int ti n = Inl e" by blast
  from int_all_fails [OF assms(1) this] obtain e' where e': "int_all ti ns = Inl e'" by blast
  from int_all_exn [OF e'] obtain m where m: "m \<in> set ns" "py_int ti m = Inl e'" by blast
  from py_int_exn [OF m(2)] m assms(3) have "e' = ValueError \<or> e' = TypeError" by auto
  with e' show ?thesis by auto
qed

lemma reject_not_coercible:
  assumes "py_getitem data ''combinations'' = Inr (PList (pre @ PList ns # rest))"
    and "length (pre @ PList ns # rest) \<le> 200"
    and "validate_all ti 0 pre [] = Inr validated"
    and "int_all ti ns = Inl ValueError \<or> int_all ti ns = Inl TypeError"
  shows "draw ti sample g data
          = (Response (ErrorJson (''Combination '' @ str_nat (length pre + 1)
               @ '' contains non-integer values.'')) 400, g)"
  using check_request_at [OF assms(1,2,3)] assms(4)
  by (auto simp: draw_def)



text \<open>
  C5, as the code has it. The handler coerces every element with \<^verbatim>\<open>int\<close> before it
  calls \<^verbatim>\<open>validate_combination\<close>. Take a request whose field \<^verbatim>\<open>combinations\<close> is a
  list of at most 200 entries, and in it an entry that is a list, with only entries
  before it that pass validation. If the entry has an element on which \<^verbatim>\<open>int\<close> raises
  ValueError or TypeError (text that is no number, null, NaN, a nested list or object)
  and no element on which it raises OverflowError, the handler answers with status 400
  and the message \<^verbatim>\<open>Combination i contains non-integer values.\<close>, \<open>i\<close> being the
  1-based index of the entry. The message \<^verbatim>\<open>All numbers must be integers.\<close> is what
  \<^verbatim>\<open>validate_combination\<close> itself returns for a list of 7 values in which the elements
  before the first one that is not an int pass the checks of range and uniqueness.
\<close>

theorem non_integer_rejected:
  "(py_getitem data ''combinations'' = Inr (PList (pre @ PList ns # rest))
      \<and> length (pre @ PList ns # rest) \<le> 200
      \<and> validate_all ti 0 pre [] = Inr validated
      \<and> n \<in> set ns \<and> (py_int ti n = Inl ValueError \<or> py_int ti n = Inl TypeError)
      \<and> (\<forall>x\<in>set ns. py_int ti x \<noteq> Inl OverflowError)
    \<longrightarrow> draw ti sample g data
          = (Response (ErrorJson (''Combination '' @ str_nat (length pre + 1)
               @ '' contains non-integer values.'')) 400, g))
   \<and> (length (before_n @ n' # after_n) = 7 \<and> isinstance_int n' = None
      \<and> validate_loop before_n {} = (True, '''')
    \<longrightarrow> validate_combination (before_n @ n' # after_n)
          = (False, ''All numbers must be integers.''))"
proof (intro conjI impI)
  assume h: "py_getitem data ''combinations'' = Inr (PList (pre @ PList ns # rest))
      \<and> length (pre @ PList ns # rest) \<le> 200
      \<and> validate_all ti 0 pre [] = Inr validated
      \<and> n \<in> set ns \<and> (py_int ti n = Inl ValueError \<or> py_int ti n = Inl TypeError)
      \<and> (\<forall>x\<in>set ns. py_int ti x \<noteq> Inl OverflowError)"
  then have "int_all ti ns = Inl ValueError \<or> int_all ti ns = Inl TypeError"
    by (intro int_all_not_coercible [of n]) simp_all
  with h show "draw ti sample g data
          = (Response (ErrorJson (''Combination '' @ str_nat (length pre + 1)
               @ '' contains non-integer values.'')) 400, g)"
    by (intro reject_not_coercible [of data pre ns rest ti validated]) simp_all
next
  assume "length (before_n @ n' # after_n) = 7 \<and> isinstance_int n' = None
      \<and> validate_loop before_n {} = (True, '''')"
  then show "validate_combination (before_n @ n' # after_n)
          = (False, ''All numbers must be integers.'')"
    by (simp add: validate_combination_def NUMBERS_PER_COMBINATION_def validate_loop_nonint)
qed

lemma py_int_abc: "py_int example_int (PStr ''abc'') = Inl ValueError"
  by (simp add: example_int_def)


lemma getitem_payload: "py_getitem (payload batch) ''combinations'' = Inr (PList batch)"
  by (simp add: payload_def)

lemma str_nat_2: "str_nat (Suc (Suc 0)) = ''2''"
  by (simp add: str_nat.simps digit_char_def)

theorem non_integer_rejected_witness:
  "draw example_int (rot_sampler 1) 0
     (payload [PList (map PInt [1, 2, 3, 4, 5, 6, 7]),
               PList [PInt 1, PStr ''abc'', PNone, PInt 4, PInt 5, PInt 6, PInt 7]])
     = (Response (ErrorJson ''Combination 2 contains non-integer values.'') 400, 0)
   \<and> validate_combination [PInt 1, PStr ''abc'', PNone, PInt 4, PInt 5, PInt 6, PInt 7]
     = (False, ''All numbers must be integers.'')"
proof -
  let ?ns = "[PInt 1, PStr ''abc'', PNone, PInt 4, PInt 5, PInt 6, PInt 7]"
  let ?pre = "[PList (map PInt [1, 2, 3, 4, 5, 6, 7])]"
  let ?data = "payload (?pre @ PList ?ns # [])"
  note t = non_integer_rejected [where data = ?data and pre = ?pre and ns = ?ns
      and rest = "[]" and ti = example_int and validated = "[[1, 2, 3, 4, 5, 6, 7]]"
      and n = "PStr ''abc''" and sample = "rot_sampler 1" and g = 0
      and before_n = "[PInt 1]" and n' = "PStr ''abc''"
      and after_n = "[PNone, PInt 4, PInt 5, PInt 6, PInt 7]"]
  have pre: "validate_all example_int 0 ?pre [] = Inr [[1, 2, 3, 4, 5, 6, 7]]"
    by (simp add: run_simps)
  have no_inf: "\<forall>x\<in>set ?ns. py_int example_int x \<noteq> Inl OverflowError"
    by (simp add: py_int_abc del: py_int.simps(7))
  have h1: "py_getitem ?data ''combinations'' = Inr (PList (?pre @ PList ?ns # []))
      \<and> length (?pre @ PList ?ns # []) \<le> 200
      \<and> validate_all example_int 0 ?pre [] = Inr [[1, 2, 3, 4, 5, 6, 7]]
      \<and> PStr ''abc'' \<in> set ?ns
      \<and> (py_int example_int (PStr ''abc'') = Inl ValueError
           \<or> py_int example_int (PStr ''abc'') = Inl TypeError)
      \<and> (\<forall>x\<in>set ?ns. py_int example_int x \<noteq> Inl OverflowError)"
    using pre no_inf py_int_abc getitem_payload by simp
  have h2: "length ([PInt 1] @ PStr ''abc'' # [PNone, PInt 4, PInt 5, PInt 6, PInt 7]) = 7
      \<and> isinstance_int (PStr ''abc'') = None \<and> validate_loop [PInt 1] {} = (True, '''')"
    by (simp add: LOTTO_MIN_def LOTTO_MAX_def)
  have two: "str_nat (length ?pre + 1) = ''2''"
    by (simp add: str_nat_2)
  from t h1 have "draw example_int (rot_sampler 1) 0 ?data
          = (Response (ErrorJson (''Combination '' @ str_nat (length ?pre + 1)
               @ '' contains non-integer values.'')) 400, 0)"
    by blast
  moreover from t h2
  have "validate_combination ([PInt 1] @ PStr ''abc'' # [PNone, PInt 4, PInt 5, PInt 6, PInt 7])
          = (False, ''All numbers must be integers.'')"
    by blast
  ultimately show ?thesis
    unfolding two by simp
qed

text \<open>
  The claim as stated fails: for a combination with the text \<^verbatim>\<open>abc\<close> the response
  carries the handler's own message, not \<^verbatim>\<open>All numbers must be integers.\<close>
\<close>

theorem non_integer_message_counterexample:
  "fst (draw example_int (rot_sampler 1) 0
     (payload [PList [PStr ''abc'', PInt 2, PInt 3, PInt 4, PInt 5, PInt 6, PInt 7]]))
     = Response (ErrorJson ''Combination 1 contains non-integer values.'') 400
   \<and> fst (draw example_int (rot_sampler 1) 0
     (payload [PList [PStr ''abc'', PInt 2, PInt 3, PInt 4, PInt 5, PInt 6, PInt 7]]))
     \<noteq> Response (ErrorJson ''Combination 1: All numbers must be integers.'') 400"
proof -
  have "check_request example_int
      (payload [PList [PStr ''abc'', PInt 2, PInt 3, PInt 4, PInt 5, PInt 6, PInt 7]])
    = Inl (Response (ErrorJson ''Combination 1 contains non-integer values.'') 400)"
    by (simp add: run_simps py_int_abc del: py_int.simps(7))
  then show ?thesis by (simp add: draw_def)
qed

text \<open>
  A fractional number passes the coercion: \<^verbatim>\<open>int(7.5)\<close> is 7, and the combination is
  validated as the integers that result.
\<close>

lemma fraction_truncated:
  "check_request ti (payload [PList [PFloat (Finite (15 / 2)), PInt 1, PInt 2, PInt 3, PInt 4,
       PInt 5, PInt 6]])
   = Inr [[7, 1, 2, 3, 4, 5, 6]]"
  by (simp add: run_simps floor_7_5)

subsection \<open>The length check\<close>




end
